theory Spec2Isabelle
  imports Complex_Main "HOL-Library.Word"
begin

section \<open>Bytes, Python errors and the \<open>struct\<close> formats used by the OMA codec\<close>

text \<open>
  The OMA file is a Python \<open>bytes\<close> object: a list of 8-bit words.  Every exception the
  modelled code can raise is a value of \<open>py_error\<close>, named after the Python exception.
  \<open>ValueError\<close> is the explicit \<open>raise ValueError("Invalid OMa file format")\<close> of
  \<open>_parse_oma_content\<close>; \<open>StructError\<close> is \<open>struct.error\<close>, raised by
  \<open>struct.pack\<close> for a number out of range and by \<open>struct.unpack\<close> for a buffer of
  the wrong size.  \<open>CvError\<close> is \<open>cv2.error\<close>, raised by OpenCV for an image it
  does not accept.
\<close>

type_synonym byte = "8 word"

datatype py_error =
    ValueError
  | StructError
  | UnicodeDecodeError
  | UnicodeEncodeError
  | ZeroDivisionError
  | CvError

text \<open>Sequencing of fallible steps: the first exception raised ends the computation.\<close>

definition bind_e :: "py_error + 'a \<Rightarrow> ('a \<Rightarrow> py_error + 'b) \<Rightarrow> py_error + 'b" where
  "bind_e r f = (case r of Inl e \<Rightarrow> Inl e | Inr x \<Rightarrow> f x)"

text \<open>Python's \<open>content[a:b]\<close> for non-negative bounds: clamped to the buffer, never raising.\<close>

definition slice :: "'a list \<Rightarrow> nat \<Rightarrow> nat \<Rightarrow> 'a list" where
  "slice content a b = take (b - a) (drop a content)"

text \<open>Little-endian base-256 digits, the layout of every \<open><\<close> format of \<open>struct\<close>.\<close>

fun le_bytes :: "nat \<Rightarrow> int \<Rightarrow> byte list" where
  "le_bytes 0 v = []"
| "le_bytes (Suc n) v = word_of_int v # le_bytes n (v div 256)"

fun le_int :: "byte list \<Rightarrow> int" where
  "le_int [] = 0"
| "le_int (b # bs) = uint b + 256 * le_int bs"

text \<open>
  \<open>struct.pack('<I', v)\<close> and \<open>struct.pack('<H', v)\<close>: a Python integer outside the
  unsigned range of the format raises \<open>struct.error\<close>.
\<close>

definition pack_I :: "int \<Rightarrow> py_error + byte list" where
  "pack_I v = (if 0 \<le> v \<and> v < 2 ^ 32 then Inr (le_bytes 4 v) else Inl StructError)"

definition pack_H :: "int \<Rightarrow> py_error + byte list" where
  "pack_H v = (if 0 \<le> v \<and> v < 2 ^ 16 then Inr (le_bytes 2 v) else Inl StructError)"

text \<open>
  \<open>struct.unpack('<I', buf)\<close>: the buffer must have exactly 4 bytes, else
  \<open>struct.error\<close>.
\<close>

definition unpack_I :: "byte list \<Rightarrow> py_error + int" where
  "unpack_I buf = (if length buf = 4 then Inr (le_int buf) else Inl StructError)"

text \<open>
  A Python float is an IEEE-754 binary64; the codec only moves its 64 bits, so a float is
  modelled by its bit pattern.  \<open>struct.pack('<d', x)\<close> writes the 8 bytes of the pattern,
  least significant first.  The integer \<open>0\<close> that \<open>_create_frame_data\<close> uses as a default
  is packed as the float \<open>0.0\<close>, whose pattern is \<open>0\<close>.
\<close>

type_synonym f64 = "64 word"

definition pack_d :: "f64 \<Rightarrow> byte list" where
  "pack_d x = le_bytes 8 (uint x)"

definition unpack_d :: "byte list \<Rightarrow> f64" where
  "unpack_d buf = word_of_int (le_int buf)"

text \<open>\<open>struct.pack(f'<{n}H', *radii)\<close>: each number in turn, none out of range.\<close>

fun pack_Hs :: "int list \<Rightarrow> py_error + byte list" where
  "pack_Hs [] = Inr []"
| "pack_Hs (r # rs) =
     bind_e (pack_H r) (\<lambda>b. bind_e (pack_Hs rs) (\<lambda>bs. Inr (b @ bs)))"

text \<open>
  \<open>struct.unpack(f'<{n}H', buf)\<close>: \<open>struct.error\<close> unless the buffer has exactly
  \<open>2 * n\<close> bytes; then the \<open>n\<close> numbers in order.
\<close>

fun unpack_pairs :: "byte list \<Rightarrow> int list" where
  "unpack_pairs (a # b # bs) = le_int [a, b] # unpack_pairs bs"
| "unpack_pairs _ = []"

definition unpack_Hs :: "nat \<Rightarrow> byte list \<Rightarrow> py_error + int list" where
  "unpack_Hs n buf = (if length buf = 2 * n then Inr (unpack_pairs buf) else Inl StructError)"

section \<open>Python strings and UTF-8\<close>

text \<open>
  A Python \<open>str\<close> is a sequence of code points.  \<open>s.encode('utf-8')\<close> raises
  \<open>UnicodeEncodeError\<close> on a surrogate code point; \<open>b.decode('utf-8')\<close> is the strict
  decoder: it raises \<open>UnicodeDecodeError\<close> on a stray or missing continuation byte, an
  overlong form, an encoded surrogate and anything above U+10FFFF.
\<close>

type_synonym pystr = "nat list"

definition ascii :: "string \<Rightarrow> pystr" where
  "ascii s = map of_char s"

definition utf8_encode_cp :: "nat \<Rightarrow> py_error + byte list" where
  "utf8_encode_cp c =
     (if c < 0x80 then Inr [of_nat c]
      else if c < 0x800 then Inr [of_nat (0xC0 + c div 64), of_nat (0x80 + c mod 64)]
      else if c < 0x10000 then
        (if 0xD800 \<le> c \<and> c \<le> 0xDFFF then Inl UnicodeEncodeError
         else Inr [of_nat (0xE0 + c div 4096), of_nat (0x80 + c div 64 mod 64),
                   of_nat (0x80 + c mod 64)])
      else if c < 0x110000 then
        Inr [of_nat (0xF0 + c div 262144), of_nat (0x80 + c div 4096 mod 64),
             of_nat (0x80 + c div 64 mod 64), of_nat (0x80 + c mod 64)]
      else Inl UnicodeEncodeError)"

fun utf8_encode :: "pystr \<Rightarrow> py_error + byte list" where
  "utf8_encode [] = Inr []"
| "utf8_encode (c # cs) =
     bind_e (utf8_encode_cp c) (\<lambda>b. bind_e (utf8_encode cs) (\<lambda>bs. Inr (b @ bs)))"

definition is_cont :: "byte \<Rightarrow> bool" where
  "is_cont b = (0x80 \<le> unat b \<and> unat b \<le> 0xBF)"

definition cont_bits :: "byte \<Rightarrow> nat" where
  "cont_bits b = unat b - 0x80"

definition cons_cp :: "nat \<Rightarrow> py_error + pystr \<Rightarrow> py_error + pystr" where
  "cons_cp c r = bind_e r (\<lambda>cs. Inr (c # cs))"

text \<open>
  The range of the byte after a lead byte: narrower after \<open>E0\<close> and \<open>F0\<close> (no overlong
  forms), after \<open>ED\<close> (no surrogates) and after \<open>F4\<close> (nothing above U+10FFFF).
\<close>

definition second_ok :: "nat \<Rightarrow> byte \<Rightarrow> bool" where
  "second_ok n0 b1 =
     ((if n0 = 0xE0 then 0xA0 else if n0 = 0xF0 then 0x90 else 0x80) \<le> unat b1
      \<and> unat b1 \<le> (if n0 = 0xED then 0x9F else if n0 = 0xF4 then 0x8F else 0xBF))"

fun utf8_decode :: "byte list \<Rightarrow> py_error + pystr" where
  "utf8_decode [] = Inr []"
| "utf8_decode (b0 # bs) =
     (let n0 = unat b0 in
      if n0 < 0x80 then cons_cp n0 (utf8_decode bs)
      else if 0xC2 \<le> n0 \<and> n0 \<le> 0xDF then
        (case bs of
           b1 # r \<Rightarrow>
             if is_cont b1
             then cons_cp ((n0 - 0xC0) * 64 + cont_bits b1) (utf8_decode r)
             else Inl UnicodeDecodeError
         | _ \<Rightarrow> Inl UnicodeDecodeError)
      else if 0xE0 \<le> n0 \<and> n0 \<le> 0xEF then
        (case bs of
           b1 # b2 # r \<Rightarrow>
             if second_ok n0 b1 \<and> is_cont b2
             then cons_cp ((n0 - 0xE0) * 4096 + cont_bits b1 * 64 + cont_bits b2)
                    (utf8_decode r)
             else Inl UnicodeDecodeError
         | _ \<Rightarrow> Inl UnicodeDecodeError)
      else if 0xF0 \<le> n0 \<and> n0 \<le> 0xF4 then
        (case bs of
           b1 # b2 # b3 # r \<Rightarrow>
             if second_ok n0 b1 \<and> is_cont b2 \<and> is_cont b3
             then cons_cp ((n0 - 0xF0) * 262144 + cont_bits b1 * 4096
                           + cont_bits b2 * 64 + cont_bits b3)
                    (utf8_decode r)
             else Inl UnicodeDecodeError
         | _ \<Rightarrow> Inl UnicodeDecodeError)
      else Inl UnicodeDecodeError)"

section \<open>Data model\<close>

text \<open>
  OpenCV is an external library.  A contour is modelled by the values OpenCV reports for
  it, under the names of the calls that the code makes: \<open>cv2.contourArea(c)\<close>,
  \<open>cv2.arcLength(c, True)\<close>, the length of
  \<open>cv2.approxPolyDP(c, 0.02 * cv2.arcLength(c, True), True)\<close>, \<open>cv2.boundingRect(c)\<close>
  and the entries \<open>m00\<close>, \<open>m10\<close>, \<open>m01\<close> of \<open>cv2.moments(c)\<close>.  A frame is an array
  of \<open>shape\<close> (rows, columns, channels) and element type \<open>dtype\<close>; \<open>findContours\<close> is
  what \<open>cv2.findContours\<close> reports for it after \<open>cv2.cvtColor\<close> and
  \<open>_preprocess_frame\<close>, when those accept the frame.  The floating-point numbers of the
  frame processor are idealised as reals.
\<close>

record contour =
  contourArea :: real
  arcLength :: real
  approx_len :: nat
  boundingRect :: "int \<times> int \<times> int \<times> int"
  m00 :: real
  m10 :: real
  m01 :: real

datatype dtype = UInt8 | Int8 | UInt16 | Int16 | Int32 | Float32 | Float64

record frame =
  shape :: "nat \<times> nat \<times> nat"
  dtype :: dtype
  findContours :: "contour list"

text \<open>
  The \<open>measurements\<close> dictionary: every key may be missing.  The type of its floats is a
  parameter: reals in the frame processor, bit patterns in the codec.
\<close>

record 'f measurements =
  width :: "int option"
  height :: "int option"
  area :: "'f option"
  center :: "(int \<times> int) option"
  perimeter :: "'f option"

definition no_measurements :: "'f measurements" where
  "no_measurements =
     \<lparr>width = None, height = None, area = None, center = None, perimeter = None\<rparr>"

text \<open>
  The \<open>scan_data\<close> dictionary, with the keys that \<open>extract_scan_data\<close> and
  \<open>_parse_oma_content\<close> write and that the codec reads.
\<close>

record 'f scan_data =
  version :: "int option"
  timestamp :: "pystr option"
  device_info :: "pystr option"
  measurements :: "'f measurements option"
  radii :: "int list option"
  contours :: "contour list option"
  frame_shape :: "(nat \<times> nat \<times> nat) option"

text \<open>\<open>d.get(key, default)\<close>\<close>

definition get_or :: "'a option \<Rightarrow> 'a \<Rightarrow> 'a" where
  "get_or v d = (case v of None \<Rightarrow> d | Some x \<Rightarrow> x)"

section \<open>\<open>OMAGenerator\<close>: the encoder\<close>

definition magic_OMAF :: "byte list" where
  "magic_OMAF = [0x4F, 0x4D, 0x41, 0x46]"

definition device_string :: pystr where
  "device_string = ascii ''Huvitz Excelon Frame Scanner''"

text \<open>
  \<open>_create_header\<close>.  \<open>now\<close> is the value of \<open>datetime.now().isoformat()\<close>, used when
  the record has no timestamp.
\<close>

definition create_header :: "pystr \<Rightarrow> f64 scan_data \<Rightarrow> py_error + byte list" where
  "create_header now sd =
     bind_e (pack_I 1) (\<lambda>ver.
     bind_e (pack_I (int (length (get_or (radii sd) [])))) (\<lambda>num.
     bind_e (utf8_encode (get_or (timestamp sd) now)) (\<lambda>timestamp_bytes.
     bind_e (pack_I (int (length timestamp_bytes))) (\<lambda>tlen.
     bind_e (utf8_encode device_string) (\<lambda>device_bytes.
     bind_e (pack_I (int (length device_bytes))) (\<lambda>dlen.
       Inr (magic_OMAF @ ver @ num @ tlen @ timestamp_bytes @ dlen @ device_bytes)))))))"

text \<open>\<open>_create_frame_data\<close>: a missing key is written as \<open>0\<close>, a missing center as \<open>(0, 0)\<close>.\<close>

definition create_frame_data :: "f64 scan_data \<Rightarrow> py_error + byte list" where
  "create_frame_data sd =
     (let ms = get_or (measurements sd) no_measurements;
          w = get_or (width ms) 0;
          h = get_or (height ms) 0;
          a = get_or (area ms) 0;
          p = get_or (perimeter ms) 0;
          (center_x, center_y) = get_or (center ms) (0, 0)
      in bind_e (pack_I w) (\<lambda>bw.
         bind_e (pack_I h) (\<lambda>bh.
         bind_e (pack_I center_x) (\<lambda>bx.
         bind_e (pack_I center_y) (\<lambda>by.
           Inr (bw @ bh @ bx @ by @ pack_d a @ pack_d p))))))"

text \<open>\<open>_create_radius_data\<close>\<close>

definition create_radius_data :: "f64 scan_data \<Rightarrow> py_error + byte list" where
  "create_radius_data sd =
     (let rs = get_or (radii sd) [] in
      if rs = [] then Inr [] else pack_Hs rs)"

text \<open>\<open>_build_oma_content\<close>\<close>

definition build_oma_content :: "pystr \<Rightarrow> f64 scan_data \<Rightarrow> py_error + byte list" where
  "build_oma_content now sd =
     bind_e (create_header now sd) (\<lambda>header.
     bind_e (create_frame_data sd) (\<lambda>frame_data.
     bind_e (create_radius_data sd) (\<lambda>radius_data.
       Inr (header @ frame_data @ radius_data))))"

section \<open>\<open>OMAGenerator\<close>: the decoder\<close>

text \<open>
  \<open>_parse_oma_content\<close>, statement by statement.  Every \<open>struct.unpack\<close> is given a slice
  and raises \<open>struct.error\<close> when the slice is shorter than its format; the two string
  slices are decoded whatever their length.
\<close>

definition parse_oma_content :: "byte list \<Rightarrow> py_error + f64 scan_data" where
  "parse_oma_content content =
     (let magic = slice content 0 4 in
      if length magic \<noteq> 4 then Inl StructError
      else if magic \<noteq> magic_OMAF then Inl ValueError
      else
        bind_e (unpack_I (slice content 4 8)) (\<lambda>ver.
        bind_e (unpack_I (slice content 8 12)) (\<lambda>num_radii.
        bind_e (unpack_I (slice content 12 16)) (\<lambda>timestamp_len.
        bind_e (utf8_decode (slice content 16 (16 + nat timestamp_len))) (\<lambda>ts.
        let offset = 16 + nat timestamp_len in
        bind_e (unpack_I (slice content offset (offset + 4))) (\<lambda>device_len.
        let offset = offset + 4 in
        bind_e (utf8_decode (slice content offset (offset + nat device_len))) (\<lambda>dev.
        let offset = offset + nat device_len;
            fr = slice content offset (offset + 16) in
        if length fr \<noteq> 16 then Inl StructError
        else
        let offset = offset + 16;
            ap = slice content offset (offset + 16) in
        if length ap \<noteq> 16 then Inl StructError
        else
        let offset = offset + 16 in
        bind_e (unpack_Hs (nat num_radii) (slice content offset (offset + nat num_radii * 2)))
          (\<lambda>rs.
          Inr \<lparr>version = Some ver,
               timestamp = Some ts,
               device_info = Some dev,
               measurements = Some
                 \<lparr>width = Some (le_int (slice fr 0 4)),
                  height = Some (le_int (slice fr 4 8)),
                  area = Some (unpack_d (slice ap 0 8)),
                  center = Some (le_int (slice fr 8 12), le_int (slice fr 12 16)),
                  perimeter = Some (unpack_d (slice ap 8 16))\<rparr>,
               radii = Some rs,
               contours = None,
               frame_shape = None\<rparr>))))))))"

section \<open>\<open>FrameProcessor\<close>\<close>

text \<open>
  The attributes that \<open>__init__\<close> creates on the processor object.  They live as long as
  the object does: every method takes the processor and returns it, updated or not.
\<close>

record processor =
  last_processed_frame :: "frame option"
  scan_contours :: "contour list"
  frame_measurements :: "real measurements"

definition init_processor :: processor where
  "init_processor =
     \<lparr>last_processed_frame = None, scan_contours = [], frame_measurements = no_measurements\<rparr>"

text \<open>\<open>_detect_frame_contours\<close>: the acceptance filter over the contours found.\<close>

definition detect_frame_contours :: "contour list \<Rightarrow> contour list" where
  "detect_frame_contours cs =
     filter (\<lambda>c. contourArea c > 1000 \<and> approx_len c \<ge> 4 \<and> approx_len c \<le> 8) cs"

text \<open>
  The OpenCV calls of \<open>process_frame\<close> that can refuse a frame.
  \<open>cv2.cvtColor(frame, cv2.COLOR_BGR2GRAY)\<close> raises \<open>cv2.error\<close> unless the image is
  non-empty, has 3 or 4 channels and has depth 8-bit unsigned, 16-bit unsigned or 32-bit
  float; \<open>cv2.adaptiveThreshold\<close> in \<open>_preprocess_frame\<close> raises \<open>cv2.error\<close> unless
  its input is 8-bit unsigned.  The code guards neither call.
\<close>

definition cvtColor_accepts :: "frame \<Rightarrow> bool" where
  "cvtColor_accepts f =
     (case shape f of
        (rows, cols, channels) \<Rightarrow>
          0 < rows \<and> 0 < cols \<and> (channels = 3 \<or> channels = 4)
          \<and> (dtype f = UInt8 \<or> dtype f = UInt16 \<or> dtype f = Float32))"

definition adaptiveThreshold_accepts :: "frame \<Rightarrow> bool" where
  "adaptiveThreshold_accepts f = (dtype f = UInt8)"

text \<open>
  \<open>process_frame\<close>: an OpenCV error leaves before anything is written; the attributes
  are written only when a contour was accepted.
\<close>

definition process_frame :: "frame option \<Rightarrow> processor \<Rightarrow> (py_error + bool) \<times> processor" where
  "process_frame fr st =
     (case fr of
        None \<Rightarrow> (Inr False, st)
      | Some f \<Rightarrow>
          if \<not> cvtColor_accepts f then (Inl CvError, st)
          else if \<not> adaptiveThreshold_accepts f then (Inl CvError, st)
          else
            (let cs = detect_frame_contours (findContours f) in
             if cs \<noteq> []
             then (Inr True, st\<lparr>scan_contours := cs, last_processed_frame := Some f\<rparr>)
             else (Inr False, st)))"

text \<open>\<open>max(xs, key=k)\<close> on a non-empty list \<open>x # xs\<close>: the first element of maximal key.\<close>

fun max_by :: "('a \<Rightarrow> real) \<Rightarrow> 'a \<Rightarrow> 'a list \<Rightarrow> 'a" where
  "max_by k best [] = best"
| "max_by k best (x # xs) = max_by k (if k x > k best then x else best) xs"

text \<open>Python's \<open>/\<close> raises on a zero divisor; \<open>int(x)\<close> truncates towards zero.\<close>

definition py_truediv :: "real \<Rightarrow> real \<Rightarrow> py_error + real" where
  "py_truediv a b = (if b = 0 then Inl ZeroDivisionError else Inr (a / b))"

definition py_int :: "real \<Rightarrow> int" where
  "py_int x = (if 0 \<le> x then \<lfloor>x\<rfloor> else \<lceil>x\<rceil>)"

text \<open>
  \<open>_extract_measurements\<close>: it reads the contours kept on the processor, not its \<open>frame\<close>
  argument.
\<close>

definition extract_measurements :: "frame \<Rightarrow> processor \<Rightarrow> py_error + real measurements" where
  "extract_measurements fr st =
     (case scan_contours st of
        [] \<Rightarrow> Inr no_measurements
      | c # cs \<Rightarrow>
          (let main_contour = max_by contourArea c cs;
               (x, y, w, h) = boundingRect main_contour;
               ms = no_measurements
                      \<lparr>width := Some w, height := Some h,
                       area := Some (contourArea main_contour)\<rparr>
           in bind_e
                (if m00 main_contour \<noteq> 0
                 then bind_e (py_truediv (m10 main_contour) (m00 main_contour)) (\<lambda>qx.
                      bind_e (py_truediv (m01 main_contour) (m00 main_contour)) (\<lambda>qy.
                        Inr (ms\<lparr>center := Some (py_int qx, py_int qy)\<rparr>)))
                 else Inr ms)
                (\<lambda>ms. Inr (ms\<lparr>perimeter := Some (arcLength main_contour)\<rparr>))))"

text \<open>
  \<open>_generate_radii_data\<close>.  \<open>radii_from raw\<close> is the method with the floating-point value
  of \<open>base_radius + variation\<close> at step \<open>i\<close> left open as \<open>raw i\<close>; \<open>radius_formula\<close> is
  that value in exact real arithmetic.
\<close>

definition radii_from :: "(nat \<Rightarrow> real) \<Rightarrow> real measurements \<Rightarrow> int list" where
  "radii_from raw ms =
     (if ms = no_measurements \<or> center ms = None then []
      else map (\<lambda>i. py_int (max 1500 (min 2700 (raw i)))) [0..<1000])"

definition radius_formula :: "nat \<Rightarrow> real" where
  "radius_formula i =
     (let angle = (real i / 1000) * 2 * pi;
          base_radius = 1550;
          variation = 100 * sin (angle * 2) + 50 * cos (angle * 3)
      in base_radius + variation)"

definition generate_radii_data :: "real measurements \<Rightarrow> int list" where
  "generate_radii_data ms = radii_from radius_formula ms"

text \<open>
  \<open>extract_scan_data\<close>.  \<open>now\<close> is the value \<open>_get_timestamp\<close> reads from the clock.
\<close>

definition extract_scan_data ::
  "frame option \<Rightarrow> pystr \<Rightarrow> processor \<Rightarrow> (py_error + real scan_data option) \<times> processor" where
  "extract_scan_data fr now st =
     (case fr of
        None \<Rightarrow> (Inr None, st)
      | Some f \<Rightarrow>
          (case process_frame fr st of
             (Inl e, st') \<Rightarrow> (Inl e, st')
           | (Inr ok, st') \<Rightarrow>
               if \<not> ok then (Inr None, st')
               else
                 (bind_e (extract_measurements f st') (\<lambda>ms.
                    Inr (Some \<lparr>version = None,
                               timestamp = Some now,
                               device_info = None,
                               measurements = Some ms,
                               radii = Some (generate_radii_data ms),
                               contours = Some (scan_contours st'),
                               frame_shape = Some (shape f)\<rparr>)),
                  st')))"

section \<open>The specification's wording, and sample inputs\<close>

text \<open>
  The sample of the radial profile as the specification words it: the clamped formula at
  the angle \<open>2\<pi>i/1000\<close>, rounded to the nearest integer.
\<close>

definition spec_sample :: "nat \<Rightarrow> int" where
  "spec_sample i =
     (let theta = 2 * pi * real i / 1000 in
      round (max 1500 (min 2700 (1550 + 100 * sin (2 * theta) + 50 * cos (3 * theta)))))"

text \<open>
  Sample inputs: the measurement of \<open>create_sample_oma\<close>, a contour with those values, a
  degenerate contour of area zero, a colour frame showing both, a colour frame showing
  only the degenerate one, and a single-channel frame.
\<close>

definition sample_measurements :: "real measurements" where
  "sample_measurements =
     \<lparr>width = Some 1552, height = Some 51, area = Some 79152, center = Some (776, 25),
      perimeter = Some 3206\<rparr>"

definition sample_contour :: contour where
  "sample_contour =
     \<lparr>contourArea = 79152, arcLength = 3206, approx_len = 4,
      boundingRect = (0, 0, 1552, 51), m00 = 79152, m10 = 61461528, m01 = 2018376\<rparr>"

definition flat_contour :: contour where
  "flat_contour =
     \<lparr>contourArea = 0, arcLength = 200, approx_len = 2,
      boundingRect = (5, 7, 101, 1), m00 = 0, m10 = 0, m01 = 0\<rparr>"


definition blank_frame :: frame where
  "blank_frame = \<lparr>shape = (1080, 1920, 3), dtype = UInt8, findContours = [flat_contour]\<rparr>"

definition gray_frame :: frame where
  "gray_frame = \<lparr>shape = (1080, 1920, 1), dtype = UInt8, findContours = []\<rparr>"

text \<open>
  The round trip of the specification, \<open>decode(encode(r))\<close>, and two scan records: one
  with every field, as \<open>create_sample_oma\<close> builds it, and one whose measurement has no
  center, as \<open>extract_scan_data\<close> would return it for a contour with \<open>m00 = 0\<close>.
\<close>

definition roundtrip :: "pystr \<Rightarrow> f64 scan_data \<Rightarrow> py_error + f64 scan_data" where
  "roundtrip now sd = bind_e (build_oma_content now sd) parse_oma_content"

definition sample_scan :: "f64 scan_data" where
  "sample_scan =
     \<lparr>version = None,
      timestamp = Some (ascii ''2025-01-01T00:00:00''),
      device_info = None,
      measurements = Some
        \<lparr>width = Some 1552, height = Some 51, area = Some 0x40F3530000000000,
         center = Some (776, 25), perimeter = Some 0x40A90C0000000000\<rparr>,
      radii = Some [2354, 2359, 2365],
      contours = None,
      frame_shape = Some (1080, 1920, 3)\<rparr>"

definition no_center_scan :: "f64 scan_data" where
  "no_center_scan =
     \<lparr>version = None,
      timestamp = Some (ascii ''2025-01-01T00:00:00''),
      device_info = None,
      measurements = Some
        \<lparr>width = Some 101, height = Some 1, area = Some 0,
         center = None, perimeter = Some 0x4069000000000000\<rparr>,
      radii = Some [],
      contours = None,
      frame_shape = Some (1080, 1920, 3)\<rparr>"

text \<open>A scan record with no key at all.\<close>

definition empty_scan :: "f64 scan_data" where
  "empty_scan =
     \<lparr>version = None, timestamp = None, device_info = None, measurements = None,
      radii = None, contours = None, frame_shape = None\<rparr>"

text \<open>
  The specification's condition on a truncated file: some length field that the buffer
  holds declares a section that does not end within the buffer.  The radius count is held
  by a buffer of 12 bytes, the timestamp length by one of 16, the device-info length by
  one that reaches 4 bytes past the timestamp.  The timestamp starts at offset 16 and the
  device string 4 bytes after its end; the radius section starts after the 52 bytes of
  fixed fields and after the two strings, as far as the buffer holds their lengths.
\<close>

definition declared_past_end :: "byte list \<Rightarrow> bool" where
  "declared_past_end content =
     (let n = length content;
          num_radii = nat (le_int (slice content 8 12));
          timestamp_len = nat (le_int (slice content 12 16));
          device_len =
            nat (le_int (slice content (16 + timestamp_len) (20 + timestamp_len)));
          held_timestamp_len = (if 16 \<le> n then timestamp_len else 0);
          held_device_len = (if 16 \<le> n \<and> 20 + timestamp_len \<le> n then device_len else 0)
      in (16 \<le> n \<and> n < 16 + timestamp_len)
         \<or> (16 \<le> n \<and> 20 + timestamp_len \<le> n \<and> n < 20 + timestamp_len + device_len)
         \<or> (12 \<le> n \<and> n < 52 + held_timestamp_len + held_device_len + num_radii * 2))"

text \<open>
  Sample buffers: a header cut one byte into a timestamp declared five bytes long, the
  byte being \<open>FF\<close> in the first and the digit \<open>2\<close> in the second; a complete 16-byte
  header that declares 1000 radii and nothing after it; and the smallest well-formed
  file, with empty strings and no radius, and the record it decodes to.
\<close>

definition cut_in_timestamp :: "byte list" where
  "cut_in_timestamp = [0x4F, 0x4D, 0x41, 0x46, 1, 0, 0, 0, 0, 0, 0, 0, 5, 0, 0, 0, 0xFF]"

definition cut_after_digit :: "byte list" where
  "cut_after_digit = [0x4F, 0x4D, 0x41, 0x46, 1, 0, 0, 0, 0, 0, 0, 0, 5, 0, 0, 0, 0x32]"

definition header_only :: "byte list" where
  "header_only = [0x4F, 0x4D, 0x41, 0x46, 1, 0, 0, 0, 0xE8, 0x03, 0, 0, 0, 0, 0, 0]"

definition minimal_oma :: "byte list" where
  "minimal_oma =
     [0x4F, 0x4D, 0x41, 0x46, 1, 0, 0, 0, 0, 0, 0, 0, 0, 0, 0, 0, 0, 0, 0, 0,
      0, 0, 0, 0, 0, 0, 0, 0, 0, 0, 0, 0, 0, 0, 0, 0,
      0, 0, 0, 0, 0, 0, 0, 0, 0, 0, 0, 0, 0, 0, 0, 0]"

definition minimal_record :: "f64 scan_data" where
  "minimal_record =
     \<lparr>version = Some 1, timestamp = Some [], device_info = Some [],
      measurements = Some
        \<lparr>width = Some 0, height = Some 0, area = Some 0, center = Some (0, 0),
         perimeter = Some 0\<rparr>,
      radii = Some [], contours = None, frame_shape = None\<rparr>"

section \<open>Properties of the decoder: the magic marker\<close>

text \<open>
  C3.  A buffer of at least four bytes whose first four bytes are not \<open>OMAF\<close> is rejected:
  \<open>_parse_oma_content\<close> raises its \<open>ValueError("Invalid OMa file format")\<close>, the format
  error of the codec, and returns no record.
\<close>

theorem parse_bad_magic:
  "4 \<le> length content \<Longrightarrow> take 4 content \<noteq> magic_OMAF \<Longrightarrow>
   parse_oma_content content = Inl ValueError"
  by (simp add: parse_oma_content_def slice_def Let_def)

theorem parse_bad_magic_witness:
  "4 \<le> length [0x4F, 0x4D, 0x41, 0x47 :: byte]
   \<and> take 4 [0x4F, 0x4D, 0x41, 0x47 :: byte] \<noteq> magic_OMAF
   \<and> parse_oma_content [0x4F, 0x4D, 0x41, 0x47] = Inl ValueError"
  using parse_bad_magic [of "[0x4F, 0x4D, 0x41, 0x47]"]
  by (simp add: magic_OMAF_def)

section \<open>Lemmas on the byte formats\<close>

lemma length_le_bytes: "length (le_bytes n v) = n"
  by (induction n arbitrary: v) auto

lemma le_int_le_bytes: "0 \<le> v \<Longrightarrow> v < 256 ^ n \<Longrightarrow> le_int (le_bytes n v) = v"
proof (induction n arbitrary: v)
  case 0
  then show ?case by simp
next
  case (Suc n)
  have d: "0 \<le> v div 256" "v div 256 < 256 ^ n" using Suc.prems by auto
  have "uint (word_of_int v :: byte) = v mod 256"
    by (simp add: uint_word_of_int)
  then show ?case using Suc.IH[OF d] by simp
qed

lemma unat_byte: "n < 256 \<Longrightarrow> unat (of_nat n :: byte) = n"
  by (simp add: unat_of_nat take_bit_nat_eq_self)

lemma dec2:
  assumes "unat b0 = 0xC0 + h" "2 \<le> h" "h \<le> 31" "unat b1 = 0x80 + l" "l < 64"
  shows "utf8_decode (b0 # b1 # rest) = cons_cp (h * 64 + l) (utf8_decode rest)"
  using assms by (simp add: Let_def is_cont_def cont_bits_def)

lemma dec3:
  assumes "unat b0 = 0xE0 + h" "h \<le> 15" "unat b1 = 0x80 + k" "k < 64"
    "unat b2 = 0x80 + l" "l < 64" "h = 0 \<Longrightarrow> 32 \<le> k" "h = 13 \<Longrightarrow> k \<le> 31"
  shows "utf8_decode (b0 # b1 # b2 # rest)
           = cons_cp (h * 4096 + k * 64 + l) (utf8_decode rest)"
  using assms by (simp add: Let_def is_cont_def cont_bits_def second_ok_def)

lemma dec4:
  assumes "unat b0 = 0xF0 + g" "g \<le> 4" "unat b1 = 0x80 + h" "h < 64"
    "unat b2 = 0x80 + k" "k < 64" "unat b3 = 0x80 + l" "l < 64"
    "g = 0 \<Longrightarrow> 16 \<le> h" "g = 4 \<Longrightarrow> h \<le> 15"
  shows "utf8_decode (b0 # b1 # b2 # b3 # rest)
           = cons_cp (g * 262144 + h * 4096 + k * 64 + l) (utf8_decode rest)"
  using assms by (simp add: Let_def is_cont_def cont_bits_def second_ok_def)

lemma div4096: "(c::nat) div 4096 = c div 64 div 64"
proof -
  have "c div (64 * 64) = c div 64 div 64" by (rule div_mult2_eq)
  then show ?thesis by simp
qed

lemma div262144: "(c::nat) div 262144 = c div 64 div 64 div 64"
proof -
  have "c div (4096 * 64) = c div 4096 div 64" by (rule div_mult2_eq)
  then show ?thesis by (simp add: div4096)
qed

lemma utf8_decode_encode_cp:
  assumes "utf8_encode_cp c = Inr b"
  shows "utf8_decode (b @ rest) = cons_cp c (utf8_decode rest)"
proof -
  define q1 where "q1 = c div 64"
  define l where "l = c mod 64"
  define q2 where "q2 = q1 div 64"
  define k where "k = q1 mod 64"
  define g where "g = q2 div 64"
  define h where "h = q2 mod 64"
  have e1: "c = q1 * 64 + l" and e2: "q1 = q2 * 64 + k" and e3: "q2 = g * 64 + h"
    and bl: "l < 64" and bk: "k < 64" and bh: "h < 64"
    by (simp_all add: q1_def l_def q2_def k_def g_def h_def)
  have d1: "c div 64 = q1" "c mod 64 = l" "c div 64 mod 64 = k"
    by (simp_all add: q1_def l_def k_def)
  have d2: "c div 4096 = q2" "c div 4096 mod 64 = h"
    by (simp_all add: div4096 q1_def q2_def h_def)
  have d3: "c div 262144 = g"
    by (simp add: div262144 q1_def q2_def g_def)
  have ul: "unat (of_nat (0x80 + l) :: byte) = 0x80 + l"
    using bl by (intro unat_byte) simp
  have uk: "unat (of_nat (0x80 + k) :: byte) = 0x80 + k"
    using bk by (intro unat_byte) simp
  have uh: "unat (of_nat (0x80 + h) :: byte) = 0x80 + h"
    using bh by (intro unat_byte) simp
  consider (one) "c < 0x80"
    | (two) "0x80 \<le> c" "c < 0x800"
    | (three) "0x800 \<le> c" "c < 0x10000" "\<not> (0xD800 \<le> c \<and> c \<le> 0xDFFF)"
    | (four) "0x10000 \<le> c" "c < 0x110000"
    using assms by (auto simp: utf8_encode_cp_def split: if_splits)
  then show ?thesis
  proof cases
    case one
    then have b: "b = [of_nat c]" using assms by (simp add: utf8_encode_cp_def)
    have "unat (of_nat c :: byte) = c" using one by (intro unat_byte) simp
    then show ?thesis using one unfolding b by (simp add: Let_def)
  next
    case two
    then have b: "b = [of_nat (0xC0 + q1), of_nat (0x80 + l)]"
      using assms by (simp add: utf8_encode_cp_def d1)
    have r: "2 \<le> q1" "q1 \<le> 31" using two e1 bl by linarith+
    have u: "unat (of_nat (0xC0 + q1) :: byte) = 0xC0 + q1"
      using r by (intro unat_byte) simp
    have "utf8_decode ([of_nat (0xC0 + q1), of_nat (0x80 + l)] @ rest)
            = cons_cp (q1 * 64 + l) (utf8_decode rest)"
      using dec2[OF u r ul bl] by simp
    then show ?thesis unfolding b e1 .
  next
    case three
    then have b: "b = [of_nat (0xE0 + q2), of_nat (0x80 + k), of_nat (0x80 + l)]"
      using assms by (auto simp: utf8_encode_cp_def d1 d2 k_def[symmetric] split: if_splits)
    have r: "q2 \<le> 15" using three e1 e2 bl bk by linarith
    have s0: "q2 = 0 \<Longrightarrow> 32 \<le> k" using three e1 e2 bl bk by linarith
    have s13: "q2 = 13 \<Longrightarrow> k \<le> 31" using three e1 e2 bl bk by linarith
    have u: "unat (of_nat (0xE0 + q2) :: byte) = 0xE0 + q2"
      using r by (intro unat_byte) simp
    have c: "c = q2 * 4096 + k * 64 + l" using e1 e2 by simp
    have "utf8_decode ([of_nat (0xE0 + q2), of_nat (0x80 + k), of_nat (0x80 + l)] @ rest)
            = cons_cp (q2 * 4096 + k * 64 + l) (utf8_decode rest)"
      using dec3[OF u r uk bk ul bl s0 s13] by simp
    then show ?thesis unfolding b using c by simp
  next
    case four
    then have b: "b = [of_nat (0xF0 + g), of_nat (0x80 + h), of_nat (0x80 + k), of_nat (0x80 + l)]"
      using assms by (simp add: utf8_encode_cp_def d1 d2 d3 k_def[symmetric] h_def[symmetric])
    have r: "g \<le> 4" using four e1 e2 e3 bl bk bh by linarith
    have s0: "g = 0 \<Longrightarrow> 16 \<le> h" using four e1 e2 e3 bl bk bh by linarith
    have s4: "g = 4 \<Longrightarrow> h \<le> 15" using four e1 e2 e3 bl bk bh by linarith
    have u: "unat (of_nat (0xF0 + g) :: byte) = 0xF0 + g"
      using r by (intro unat_byte) simp
    have c: "c = g * 262144 + h * 4096 + k * 64 + l" using e1 e2 e3 by simp
    have "utf8_decode ([of_nat (0xF0 + g), of_nat (0x80 + h), of_nat (0x80 + k), of_nat (0x80 + l)] @ rest)
            = cons_cp (g * 262144 + h * 4096 + k * 64 + l) (utf8_decode rest)"
      using dec4[OF u r uh bh uk bk ul bl s0 s4] by simp
    then show ?thesis unfolding b using c by simp
  qed
qed

lemma utf8_roundtrip: "utf8_encode s = Inr bs \<Longrightarrow> utf8_decode bs = Inr s"
proof (induction s arbitrary: bs)
  case Nil
  then show ?case by simp
next
  case (Cons c cs)
  from Cons.prems obtain b bs' where
    b: "utf8_encode_cp c = Inr b" and bs': "utf8_encode cs = Inr bs'" and eq: "bs = b @ bs'"
    by (auto simp: bind_e_def split: sum.splits)
  show ?case
    unfolding eq utf8_decode_encode_cp[OF b] Cons.IH[OF bs'] by (simp add: cons_cp_def bind_e_def)
qed

lemma bind_e_simps: "bind_e (Inr x) f = f x" "bind_e (Inl e) f = Inl e"
  by (simp_all add: bind_e_def)

lemma length_magic: "length magic_OMAF = 4"
  by (simp add: magic_OMAF_def)

lemma slice_skip:
  "length x \<le> a \<Longrightarrow> slice (x @ ys) a b = slice ys (a - length x) (b - length x)"
  by (simp add: slice_def)

lemma slice_here: "b = length mid \<Longrightarrow> slice (mid @ post) 0 b = mid"
  by (simp add: slice_def)

lemma parse_layout:
  assumes "length ver = 4" "length num = 4" "length tlen = 4"
    "nat (le_int tlen) = length tsb" "length dlen = 4" "nat (le_int dlen) = length devb"
    "length fr = 16" "length ap = 16" "length rad = 2 * nat (le_int num)"
  shows "parse_oma_content
           (magic_OMAF @ ver @ num @ tlen @ tsb @ dlen @ devb @ fr @ ap @ rad @ extra)
         = bind_e (utf8_decode tsb) (\<lambda>ts.
           bind_e (utf8_decode devb) (\<lambda>dev.
             Inr \<lparr>version = Some (le_int ver),
                  timestamp = Some ts,
                  device_info = Some dev,
                  measurements = Some
                    \<lparr>width = Some (le_int (slice fr 0 4)),
                     height = Some (le_int (slice fr 4 8)),
                     area = Some (unpack_d (slice ap 0 8)),
                     center = Some (le_int (slice fr 8 12), le_int (slice fr 12 16)),
                     perimeter = Some (unpack_d (slice ap 8 16))\<rparr>,
                  radii = Some (unpack_pairs rad),
                  contours = None,
                  frame_shape = None\<rparr>))"
  using assms
  by (simp add: parse_oma_content_def Let_def unpack_I_def unpack_Hs_def bind_e_simps
        slice_skip slice_here length_magic)

lemma slice_all: "length xs \<le> b \<Longrightarrow> slice xs 0 b = xs"
  by (simp add: slice_def)

lemma pack_I_Inr: "pack_I v = Inr b \<Longrightarrow> b = le_bytes 4 v \<and> 0 \<le> v \<and> v < 4294967296"
  by (auto simp: pack_I_def split: if_splits)

lemma pack_I_ok: "0 \<le> v \<Longrightarrow> v < 4294967296 \<Longrightarrow> pack_I v = Inr (le_bytes 4 v)"
  by (simp add: pack_I_def)

lemma le_int_le_bytes4: "0 \<le> v \<Longrightarrow> v < 4294967296 \<Longrightarrow> le_int (le_bytes 4 v) = v"
  using le_int_le_bytes[of v 4] by simp

lemma le_int_le_bytes2: "0 \<le> v \<Longrightarrow> v < 65536 \<Longrightarrow> le_int (le_bytes 2 v) = v"
  using le_int_le_bytes[of v 2] by simp

lemma unpack_pack_d: "unpack_d (pack_d x) = x"
proof -
  have "uint x < 2 ^ 64" using uint_bounded[of x] by simp
  then have "uint x < 256 ^ 8" by simp
  then have "le_int (le_bytes 8 (uint x)) = uint x"
    by (intro le_int_le_bytes) simp_all
  then show ?thesis by (simp add: unpack_d_def pack_d_def)
qed

lemma length_pack_d: "length (pack_d x) = 8"
  by (simp add: pack_d_def length_le_bytes)

lemma pack_Hs_Inr:
  "pack_Hs rs = Inr bs \<Longrightarrow> length bs = 2 * length rs \<and> unpack_pairs bs = rs"
proof (induction rs arbitrary: bs)
  case Nil
  then show ?case by simp
next
  case (Cons r rs)
  from Cons.prems obtain b bs' where
    b: "pack_H r = Inr b" and bs': "pack_Hs rs = Inr bs'" and eq: "bs = b @ bs'"
    by (auto simp: bind_e_def split: sum.splits)
  from b have r: "0 \<le> r" "r < 65536" and bb: "b = le_bytes 2 r"
    by (auto simp: pack_H_def split: if_splits)
  obtain x y where xy: "le_bytes 2 r = [x, y]"
    by (simp add: numeral_2_eq_2)
  have "le_int [x, y] = r" using le_int_le_bytes2[OF r] xy by simp
  then show ?case using Cons.IH[OF bs'] eq bb xy by simp
qed

lemma pack_Hs_ok:
  "\<forall>r \<in> set rs. 0 \<le> r \<and> r < 65536 \<Longrightarrow> \<exists>bs. pack_Hs rs = Inr bs"
  by (induction rs) (auto simp: bind_e_def pack_H_def)

lemma utf8_encode_device:
  "utf8_encode device_string = Inr (map of_nat device_string)"
  by (simp add: device_string_def ascii_def utf8_encode_cp_def bind_e_def)

lemma length_device: "length device_string = 28"
  by (simp add: device_string_def ascii_def)

lemma bind_e_Inr_iff: "bind_e r f = Inr y \<longleftrightarrow> (\<exists>x. r = Inr x \<and> f x = Inr y)"
  by (cases r) (simp_all add: bind_e_def)

lemma create_radius_data_eq: "create_radius_data sd = pack_Hs (get_or (radii sd) [])"
  by (simp add: create_radius_data_def Let_def)

lemma create_header_Inr:
  assumes "create_header now sd = Inr header"
  shows "\<exists>tsb. utf8_encode (get_or (timestamp sd) now) = Inr tsb
           \<and> int (length tsb) < 4294967296
           \<and> int (length (get_or (radii sd) [])) < 4294967296
           \<and> header = magic_OMAF @ le_bytes 4 1
                @ le_bytes 4 (int (length (get_or (radii sd) [])))
                @ le_bytes 4 (int (length tsb)) @ tsb
                @ le_bytes 4 28 @ map of_nat device_string"
  using assms
  by (auto simp: create_header_def bind_e_Inr_iff utf8_encode_device length_device
           dest!: pack_I_Inr)

lemma create_frame_data_Inr:
  assumes "create_frame_data sd = Inr frame_data"
  shows "\<exists>w h cx cy.
           w = get_or (width (get_or (measurements sd) no_measurements)) 0
         \<and> h = get_or (height (get_or (measurements sd) no_measurements)) 0
         \<and> (cx, cy) = get_or (center (get_or (measurements sd) no_measurements)) (0, 0)
         \<and> 0 \<le> w \<and> w < 4294967296 \<and> 0 \<le> h \<and> h < 4294967296
         \<and> 0 \<le> cx \<and> cx < 4294967296 \<and> 0 \<le> cy \<and> cy < 4294967296
         \<and> frame_data = (le_bytes 4 w @ le_bytes 4 h @ le_bytes 4 cx @ le_bytes 4 cy)
              @ (pack_d (get_or (area (get_or (measurements sd) no_measurements)) 0)
                 @ pack_d (get_or (perimeter (get_or (measurements sd) no_measurements)) 0))"
  using assms
  by (auto simp: create_frame_data_def Let_def bind_e_Inr_iff split: prod.splits
           dest!: pack_I_Inr)

lemma length_ascii: "length (ascii s) = length s"
  by (simp add: ascii_def)

lemma utf8_encode_sample_ts:
  "utf8_encode (ascii ''2025-01-01T00:00:00'') = Inr (map of_nat (ascii ''2025-01-01T00:00:00''))"
  by (simp add: ascii_def utf8_encode_cp_def bind_e_def)

section \<open>Decoding what the encoder wrote\<close>

text \<open>
  Whatever \<open>_build_oma_content\<close> returns, \<open>_parse_oma_content\<close> decodes it, also when
  bytes follow it, to the record of the values written: the given ones, and the defaults
  where a key was missing.
\<close>

lemma parse_build:
  assumes "build_oma_content now sd = Inr content"
  shows "parse_oma_content (content @ extra) =
     Inr \<lparr>version = Some 1,
          timestamp = Some (get_or (timestamp sd) now),
          device_info = Some device_string,
          measurements = Some
            \<lparr>width = Some (get_or (width (get_or (measurements sd) no_measurements)) 0),
             height = Some (get_or (height (get_or (measurements sd) no_measurements)) 0),
             area = Some (get_or (area (get_or (measurements sd) no_measurements)) 0),
             center = Some (get_or (center (get_or (measurements sd) no_measurements)) (0, 0)),
             perimeter =
               Some (get_or (perimeter (get_or (measurements sd) no_measurements)) 0)\<rparr>,
          radii = Some (get_or (radii sd) []),
          contours = None,
          frame_shape = None\<rparr>"
proof -
  let ?ms = "get_or (measurements sd) no_measurements"
  let ?rs = "get_or (radii sd) []"
  from assms obtain header frame_data radius_data where
    h: "create_header now sd = Inr header" and
    f: "create_frame_data sd = Inr frame_data" and
    r: "pack_Hs ?rs = Inr radius_data" and
    c: "content = header @ frame_data @ radius_data"
    by (auto simp: build_oma_content_def bind_e_Inr_iff create_radius_data_eq)
  from create_header_Inr[OF h] obtain tsb where
    ts: "utf8_encode (get_or (timestamp sd) now) = Inr tsb" and
    tl: "int (length tsb) < 4294967296" and
    nl: "int (length ?rs) < 4294967296" and
    hd: "header = magic_OMAF @ le_bytes 4 1 @ le_bytes 4 (int (length ?rs))
                   @ le_bytes 4 (int (length tsb)) @ tsb
                   @ le_bytes 4 28 @ map of_nat device_string"
    by blast
  from create_frame_data_Inr[OF f] obtain w h cx cy where
    w: "w = get_or (width ?ms) 0" and hh: "h = get_or (height ?ms) 0" and
    cc: "(cx, cy) = get_or (center ?ms) (0, 0)" and
    rg: "0 \<le> w" "w < 4294967296" "0 \<le> h" "h < 4294967296"
        "0 \<le> cx" "cx < 4294967296" "0 \<le> cy" "cy < 4294967296" and
    fd: "frame_data = (le_bytes 4 w @ le_bytes 4 h @ le_bytes 4 cx @ le_bytes 4 cy)
              @ (pack_d (get_or (area ?ms) 0) @ pack_d (get_or (perimeter ?ms) 0))"
    by blast
  let ?fr = "le_bytes 4 w @ le_bytes 4 h @ le_bytes 4 cx @ le_bytes 4 cy"
  let ?ap = "pack_d (get_or (area ?ms) 0) @ pack_d (get_or (perimeter ?ms) 0)"
  have rl: "length radius_data = 2 * length ?rs" and ru: "unpack_pairs radius_data = ?rs"
    using pack_Hs_Inr[OF r] by simp_all
  have e: "content @ extra =
        magic_OMAF @ le_bytes 4 1 @ le_bytes 4 (int (length ?rs))
          @ le_bytes 4 (int (length tsb)) @ tsb @ le_bytes 4 28 @ map of_nat device_string
          @ ?fr @ ?ap @ radius_data @ extra"
    unfolding c hd fd by simp
  have n1: "le_int (le_bytes 4 (int (length ?rs))) = int (length ?rs)"
    using nl by (intro le_int_le_bytes4) simp_all
  have n2: "le_int (le_bytes 4 (int (length tsb))) = int (length tsb)"
    using tl by (intro le_int_le_bytes4) simp_all
  have n3: "le_int (le_bytes 4 28) = 28"
    by (intro le_int_le_bytes4) simp_all
  have n4: "le_int (le_bytes 4 1) = 1"
    by (intro le_int_le_bytes4) simp_all
  have p: "parse_oma_content (content @ extra)
         = bind_e (utf8_decode tsb) (\<lambda>ts.
           bind_e (utf8_decode (map of_nat device_string)) (\<lambda>dev.
             Inr \<lparr>version = Some (le_int (le_bytes 4 1)),
                  timestamp = Some ts,
                  device_info = Some dev,
                  measurements = Some
                    \<lparr>width = Some (le_int (slice ?fr 0 4)),
                     height = Some (le_int (slice ?fr 4 8)),
                     area = Some (unpack_d (slice ?ap 0 8)),
                     center = Some (le_int (slice ?fr 8 12), le_int (slice ?fr 12 16)),
                     perimeter = Some (unpack_d (slice ?ap 8 16))\<rparr>,
                  radii = Some (unpack_pairs radius_data),
                  contours = None,
                  frame_shape = None\<rparr>))"
    unfolding e
    by (rule parse_layout)
       (simp_all add: length_le_bytes length_pack_d n1 n2 n3 length_device rl)
  have d1: "utf8_decode tsb = Inr (get_or (timestamp sd) now)"
    by (rule utf8_roundtrip[OF ts])
  have d2: "utf8_decode (map of_nat device_string) = Inr device_string"
    by (rule utf8_roundtrip[OF utf8_encode_device])
  have f1: "slice ?fr 0 4 = le_bytes 4 w" by (simp add: slice_here length_le_bytes)
  have f2: "slice ?fr 4 8 = le_bytes 4 h"
    by (simp add: slice_skip slice_here length_le_bytes)
  have f3: "slice ?fr 8 12 = le_bytes 4 cx"
    by (simp add: slice_skip slice_here length_le_bytes)
  have f4: "slice ?fr 12 16 = le_bytes 4 cy"
    by (simp add: slice_skip slice_all length_le_bytes)
  have a1: "slice ?ap 0 8 = pack_d (get_or (area ?ms) 0)"
    by (simp add: slice_here length_pack_d)
  have a2: "slice ?ap 8 16 = pack_d (get_or (perimeter ?ms) 0)"
    by (simp add: slice_skip slice_all length_pack_d)
  show ?thesis
    unfolding p d1 d2 bind_e_simps f1 f2 f3 f4 a1 a2 unpack_pack_d ru n4
      le_int_le_bytes4[OF rg(1,2)] le_int_le_bytes4[OF rg(3,4)]
      le_int_le_bytes4[OF rg(5,6)] le_int_le_bytes4[OF rg(7,8)]
    unfolding w hh cc ..
qed

lemma build_ok:
  assumes "utf8_encode (get_or (timestamp sd) now) = Inr tsb"
    and "length tsb < 4294967296"
    and "0 \<le> get_or (width (get_or (measurements sd) no_measurements)) 0"
    and "get_or (width (get_or (measurements sd) no_measurements)) 0 < 4294967296"
    and "0 \<le> get_or (height (get_or (measurements sd) no_measurements)) 0"
    and "get_or (height (get_or (measurements sd) no_measurements)) 0 < 4294967296"
    and "0 \<le> fst (get_or (center (get_or (measurements sd) no_measurements)) (0, 0))"
    and "fst (get_or (center (get_or (measurements sd) no_measurements)) (0, 0)) < 4294967296"
    and "0 \<le> snd (get_or (center (get_or (measurements sd) no_measurements)) (0, 0))"
    and "snd (get_or (center (get_or (measurements sd) no_measurements)) (0, 0)) < 4294967296"
    and "length (get_or (radii sd) []) < 4294967296"
    and "\<forall>r \<in> set (get_or (radii sd) []). 0 \<le> r \<and> r < 65536"
  shows "\<exists>content. build_oma_content now sd = Inr content"
proof -
  obtain rad where r: "pack_Hs (get_or (radii sd) []) = Inr rad"
    using pack_Hs_ok[OF assms(12)] by blast
  have h: "\<exists>header. create_header now sd = Inr header"
    using assms(1,2,11)
    by (simp add: create_header_def bind_e_simps pack_I_ok utf8_encode_device length_device)
  have f: "\<exists>frame_data. create_frame_data sd = Inr frame_data"
    using assms(3-10)
    by (auto simp: create_frame_data_def Let_def bind_e_simps pack_I_ok split: prod.splits)
  from h f r show ?thesis
    by (auto simp: build_oma_content_def bind_e_simps create_radius_data_eq)
qed

text \<open>
  C1, as amended.  For a scan record that has a timestamp, all five measurement fields
  and a radius list, with width, height and center in the unsigned 32-bit range, at most
  65535 radii each in the unsigned 16-bit range, and a timestamp that encodes to UTF-8 in
  fewer than \<open>2^32\<close> bytes, encoding succeeds and decoding the bytes gives back the
  timestamp, the measurement and the radius list.  Floats are compared as bit patterns.
\<close>

theorem roundtrip_full_record:
  assumes "timestamp sd = Some ts" "utf8_encode ts = Inr tsb" "length tsb < 4294967296"
    and "measurements sd = Some ms"
    and "width ms = Some w" "height ms = Some h" "center ms = Some (cx, cy)"
    and "area ms = Some a" "perimeter ms = Some p"
    and "0 \<le> w" "w < 4294967296" "0 \<le> h" "h < 4294967296"
    and "0 \<le> cx" "cx < 4294967296" "0 \<le> cy" "cy < 4294967296"
    and "radii sd = Some rs" "length rs \<le> 65535" "\<forall>r \<in> set rs. 0 \<le> r \<and> r < 65536"
  shows "\<exists>content r. build_oma_content now sd = Inr content
           \<and> parse_oma_content content = Inr r
           \<and> timestamp r = timestamp sd
           \<and> measurements r = measurements sd
           \<and> radii r = radii sd"
proof -
  have "\<exists>content. build_oma_content now sd = Inr content"
    by (rule build_ok[where tsb = tsb]) (use assms in \<open>simp_all add: get_or_def\<close>)
  then obtain content where b: "build_oma_content now sd = Inr content" by blast
  have ms: "ms = \<lparr>width = Some w, height = Some h, area = Some a, center = Some (cx, cy),
                  perimeter = Some p\<rparr>"
    using assms(5-9) by (cases ms) simp
  show ?thesis
    using parse_build[OF b, of "[]"] b assms(1,4,18) ms
    by (simp add: get_or_def)
qed

theorem roundtrip_full_record_witness:
  "\<exists>content r. build_oma_content [] sample_scan = Inr content
     \<and> parse_oma_content content = Inr r
     \<and> timestamp r = timestamp sample_scan
     \<and> measurements r = measurements sample_scan
     \<and> radii r = radii sample_scan"
  by (rule roundtrip_full_record
        [where ts = "ascii ''2025-01-01T00:00:00''"
           and tsb = "map of_nat (ascii ''2025-01-01T00:00:00'')"
           and ms = "\<lparr>width = Some 1552, height = Some 51, area = Some 0x40F3530000000000,
                       center = Some (776, 25), perimeter = Some 0x40A90C0000000000\<rparr>"
           and rs = "[2354, 2359, 2365]" and w = 1552 and h = 51 and cx = 776 and cy = 25
           and a = "0x40F3530000000000" and p = "0x40A90C0000000000"])
     (simp_all add: sample_scan_def utf8_encode_sample_ts length_ascii)

text \<open>
  C1, as stated, fails for a record whose measurement has no center: the encoder writes
  \<open>(0, 0)\<close> and the decoder returns a center \<open>(0, 0)\<close> that the record never had.
\<close>

theorem roundtrip_fills_missing_center:
  "roundtrip [] no_center_scan =
     Inr \<lparr>version = Some 1,
          timestamp = Some (ascii ''2025-01-01T00:00:00''),
          device_info = Some device_string,
          measurements = Some
            \<lparr>width = Some 101, height = Some 1, area = Some 0,
             center = Some (0, 0), perimeter = Some 0x4069000000000000\<rparr>,
          radii = Some [],
          contours = None,
          frame_shape = None\<rparr>
   \<and> center (get_or (measurements no_center_scan) no_measurements) = None"
proof -
  have "\<exists>content. build_oma_content [] no_center_scan = Inr content"
    by (rule build_ok[where tsb = "map of_nat (ascii ''2025-01-01T00:00:00'')"])
       (simp_all add: no_center_scan_def get_or_def utf8_encode_sample_ts length_ascii no_measurements_def)
  then obtain content where b: "build_oma_content [] no_center_scan = Inr content" by blast
  show ?thesis
    using parse_build[OF b, of "[]"] b
    by (simp add: roundtrip_def bind_e_simps no_center_scan_def get_or_def)
qed

section \<open>Encoding a partial measurement\<close>

lemma le_bytes_zero: "le_bytes n 0 = replicate n 0"
  by (induction n) simp_all

lemma pack_d_zero: "pack_d 0 = replicate 8 0"
  by (simp add: pack_d_def le_bytes_zero)

text \<open>
  C10.  Whichever of width, height, center, area and perimeter the measurement lacks (or
  when there is no measurement at all), \<open>_create_frame_data\<close> succeeds and writes \<open>0\<close>,
  or \<open>(0, 0)\<close> for the center, in the place of each missing field, and the whole of
  \<open>_build_oma_content\<close> succeeds; decoding shows the zeros.  The fields that are present
  are taken in the range of their format, the timestamp encodable.
\<close>

theorem encode_partial_measurement:
  assumes "utf8_encode (get_or (timestamp sd) now) = Inr tsb"
    and "length tsb < 4294967296"
    and "ms = get_or (measurements sd) no_measurements"
    and "0 \<le> get_or (width ms) 0" "get_or (width ms) 0 < 4294967296"
    and "0 \<le> get_or (height ms) 0" "get_or (height ms) 0 < 4294967296"
    and "get_or (center ms) (0, 0) = (cx, cy)"
    and "0 \<le> cx" "cx < 4294967296" "0 \<le> cy" "cy < 4294967296"
    and "length (get_or (radii sd) []) < 4294967296"
    and "\<forall>r \<in> set (get_or (radii sd) []). 0 \<le> r \<and> r < 65536"
  shows "create_frame_data sd =
           Inr (le_bytes 4 (get_or (width ms) 0) @ le_bytes 4 (get_or (height ms) 0)
                @ le_bytes 4 cx @ le_bytes 4 cy
                @ pack_d (get_or (area ms) 0) @ pack_d (get_or (perimeter ms) 0))
     \<and> le_bytes 4 0 = [0, 0, 0, 0]
     \<and> pack_d 0 = [0, 0, 0, 0, 0, 0, 0, 0]
     \<and> (\<exists>content. build_oma_content now sd = Inr content
           \<and> parse_oma_content content =
               Inr \<lparr>version = Some 1,
                    timestamp = Some (get_or (timestamp sd) now),
                    device_info = Some device_string,
                    measurements = Some
                      \<lparr>width = Some (get_or (width ms) 0),
                       height = Some (get_or (height ms) 0),
                       area = Some (get_or (area ms) 0),
                       center = Some (get_or (center ms) (0, 0)),
                       perimeter = Some (get_or (perimeter ms) 0)\<rparr>,
                    radii = Some (get_or (radii sd) []),
                    contours = None,
                    frame_shape = None\<rparr>)"
proof -
  have f: "create_frame_data sd =
           Inr (le_bytes 4 (get_or (width ms) 0) @ le_bytes 4 (get_or (height ms) 0)
                @ le_bytes 4 cx @ le_bytes 4 cy
                @ pack_d (get_or (area ms) 0) @ pack_d (get_or (perimeter ms) 0))"
    using assms(3-12)
    by (simp add: create_frame_data_def Let_def bind_e_simps pack_I_ok)
  have z: "le_bytes 4 0 = [0, 0, 0, 0]" "pack_d 0 = [0, 0, 0, 0, 0, 0, 0, 0]"
    by (simp_all add: le_bytes_zero pack_d_zero numeral_eq_Suc)
  have "\<exists>content. build_oma_content now sd = Inr content"
    by (rule build_ok[where tsb = tsb]) (use assms in simp_all)
  then obtain content where b: "build_oma_content now sd = Inr content" by blast
  show ?thesis
    using parse_build[OF b, of "[]"] b f z assms(3) by simp
qed

theorem encode_partial_measurement_witness:
  "create_frame_data empty_scan =
     Inr [0, 0, 0, 0, 0, 0, 0, 0, 0, 0, 0, 0, 0, 0, 0, 0,
          0, 0, 0, 0, 0, 0, 0, 0, 0, 0, 0, 0, 0, 0, 0, 0]
   \<and> (\<exists>content. build_oma_content (ascii ''2025-01-01T00:00:00'') empty_scan = Inr content)"
proof -
  have g: "get_or (timestamp empty_scan) (ascii ''2025-01-01T00:00:00'')
             = ascii ''2025-01-01T00:00:00''"
     "get_or (measurements empty_scan) no_measurements = no_measurements"
     "get_or (radii empty_scan) [] = []"
     "get_or (width no_measurements) 0 = 0"
     "get_or (height no_measurements) 0 = 0"
     "get_or (center no_measurements) (0, 0) = (0, 0)"
     "get_or (area no_measurements) 0 = 0"
     "get_or (perimeter no_measurements) 0 = 0"
    by (simp_all add: empty_scan_def get_or_def no_measurements_def)
  have t: "utf8_encode (get_or (timestamp empty_scan) (ascii ''2025-01-01T00:00:00''))
             = Inr (map of_nat (ascii ''2025-01-01T00:00:00''))"
    unfolding g by (rule utf8_encode_sample_ts)
  have l: "length (map of_nat (ascii ''2025-01-01T00:00:00'') :: byte list) < 4294967296"
    by (simp add: length_ascii)
  note e = encode_partial_measurement
     [where sd = empty_scan and now = "ascii ''2025-01-01T00:00:00''"
        and ms = no_measurements and cx = 0 and cy = 0, OF t l]
  have "create_frame_data empty_scan =
           Inr (le_bytes 4 0 @ le_bytes 4 0 @ le_bytes 4 0 @ le_bytes 4 0 @ pack_d 0 @ pack_d 0)
     \<and> le_bytes 4 0 = [0, 0, 0, 0]
     \<and> pack_d 0 = [0, 0, 0, 0, 0, 0, 0, 0]
     \<and> (\<exists>content. build_oma_content (ascii ''2025-01-01T00:00:00'') empty_scan = Inr content)"
    using e unfolding g by auto
  then show ?thesis by simp
qed

section \<open>What the decoder reads\<close>

lemma slice_append_within: "e \<le> length b \<Longrightarrow> slice (b @ s) a e = slice b a e"
  by (simp add: slice_def)

lemma slice_len_bound: "length (slice xs a e) = n \<Longrightarrow> 0 < n \<Longrightarrow> a + n \<le> length xs"
  by (auto simp: slice_def)

lemma unpack_I_Inr: "unpack_I x = Inr v \<Longrightarrow> length x = 4 \<and> v = le_int x"
  by (auto simp: unpack_I_def split: if_splits)

lemma parse_InrE:
  assumes "parse_oma_content b = Inr r"
  obtains ver num tlv ts dlv dev rs where
    "slice b 0 4 = magic_OMAF"
    "unpack_I (slice b 4 8) = Inr ver"
    "unpack_I (slice b 8 12) = Inr num"
    "unpack_I (slice b 12 16) = Inr tlv"
    "utf8_decode (slice b 16 (16 + nat tlv)) = Inr ts"
    "unpack_I (slice b (16 + nat tlv) (16 + nat tlv + 4)) = Inr dlv"
    "utf8_decode (slice b (16 + nat tlv + 4) (16 + nat tlv + 4 + nat dlv)) = Inr dev"
    "length (slice b (16 + nat tlv + 4 + nat dlv) (16 + nat tlv + 4 + nat dlv + 16)) = 16"
    "length (slice b (16 + nat tlv + 4 + nat dlv + 16) (16 + nat tlv + 4 + nat dlv + 16 + 16)) = 16"
    "unpack_Hs (nat num) (slice b (16 + nat tlv + 4 + nat dlv + 16 + 16)
        (16 + nat tlv + 4 + nat dlv + 16 + 16 + nat num * 2)) = Inr rs"
  using assms unfolding parse_oma_content_def Let_def
  by (auto simp: bind_e_Inr_iff split: if_splits)

lemma parse_minimal: "parse_oma_content minimal_oma = Inr minimal_record"
  by (simp add: minimal_oma_def minimal_record_def parse_oma_content_def slice_def
        magic_OMAF_def unpack_I_def unpack_Hs_def unpack_d_def bind_e_simps Let_def)

text \<open>
  C9.  A buffer that decodes still decodes, to the same record, when any bytes are
  appended to it: the decoder reads nothing past the end of the radius section.
\<close>

theorem parse_ignores_trailing_bytes:
  assumes "parse_oma_content b = Inr r"
  shows "parse_oma_content (b @ s) = Inr r"
proof -
  from assms obtain ver num tlv ts dlv dev rs where
    f0: "slice b 0 4 = magic_OMAF" and
    f1: "unpack_I (slice b 4 8) = Inr ver" and
    f2: "unpack_I (slice b 8 12) = Inr num" and
    f3: "unpack_I (slice b 12 16) = Inr tlv" and
    f4: "utf8_decode (slice b 16 (16 + nat tlv)) = Inr ts" and
    f5: "unpack_I (slice b (16 + nat tlv) (16 + nat tlv + 4)) = Inr dlv" and
    f6: "utf8_decode (slice b (16 + nat tlv + 4) (16 + nat tlv + 4 + nat dlv)) = Inr dev" and
    f7: "length (slice b (16 + nat tlv + 4 + nat dlv) (16 + nat tlv + 4 + nat dlv + 16)) = 16" and
    f8: "length (slice b (16 + nat tlv + 4 + nat dlv + 16)
                   (16 + nat tlv + 4 + nat dlv + 16 + 16)) = 16" and
    f9: "unpack_Hs (nat num) (slice b (16 + nat tlv + 4 + nat dlv + 16 + 16)
        (16 + nat tlv + 4 + nat dlv + 16 + 16 + nat num * 2)) = Inr rs"
    by (rule parse_InrE)
  have b1: "16 \<le> length b"
    using slice_len_bound[of b 12 16 4] unpack_I_Inr[OF f3] by simp
  have b2: "16 + nat tlv + 4 \<le> length b"
    using slice_len_bound[of b "16 + nat tlv" "16 + nat tlv + 4" 4] unpack_I_Inr[OF f5] by simp
  have b3: "16 + nat tlv + 4 + nat dlv + 16 + 16 \<le> length b"
    using slice_len_bound[OF f8] by simp
  have b4: "16 + nat tlv + 4 + nat dlv + 16 + 16 + nat num * 2 \<le> length b"
  proof (cases "nat num = 0")
    case True
    then show ?thesis using b3 by simp
  next
    case False
    from f9 have "length (slice b (16 + nat tlv + 4 + nat dlv + 16 + 16)
        (16 + nat tlv + 4 + nat dlv + 16 + 16 + nat num * 2)) = 2 * nat num"
      by (auto simp: unpack_Hs_def split: if_splits)
    from slice_len_bound[OF this] False show ?thesis by simp
  qed
  have e0: "slice (b @ s) 0 4 = slice b 0 4"
    and e1: "slice (b @ s) 4 8 = slice b 4 8"
    and e2: "slice (b @ s) 8 12 = slice b 8 12"
    and e3: "slice (b @ s) 12 16 = slice b 12 16"
    using b1 by (simp_all add: slice_append_within)
  have e4: "slice (b @ s) 16 (16 + nat tlv) = slice b 16 (16 + nat tlv)"
    using b2 by (simp add: slice_append_within)
  have e5: "slice (b @ s) (16 + nat tlv) (16 + nat tlv + 4) = slice b (16 + nat tlv) (16 + nat tlv + 4)"
    using b2 by (simp add: slice_append_within)
  have e6: "slice (b @ s) (16 + nat tlv + 4) (16 + nat tlv + 4 + nat dlv)
              = slice b (16 + nat tlv + 4) (16 + nat tlv + 4 + nat dlv)"
    using b3 by (simp add: slice_append_within)
  have e7: "slice (b @ s) (16 + nat tlv + 4 + nat dlv) (16 + nat tlv + 4 + nat dlv + 16)
              = slice b (16 + nat tlv + 4 + nat dlv) (16 + nat tlv + 4 + nat dlv + 16)"
    using b3 by (simp add: slice_append_within)
  have e8: "slice (b @ s) (16 + nat tlv + 4 + nat dlv + 16) (16 + nat tlv + 4 + nat dlv + 16 + 16)
              = slice b (16 + nat tlv + 4 + nat dlv + 16) (16 + nat tlv + 4 + nat dlv + 16 + 16)"
    using b3 by (simp add: slice_append_within)
  have e9: "slice (b @ s) (16 + nat tlv + 4 + nat dlv + 16 + 16)
                (16 + nat tlv + 4 + nat dlv + 16 + 16 + nat num * 2)
              = slice b (16 + nat tlv + 4 + nat dlv + 16 + 16)
                  (16 + nat tlv + 4 + nat dlv + 16 + 16 + nat num * 2)"
    using b4 by (simp add: slice_append_within)
  have "parse_oma_content (b @ s) = parse_oma_content b"
    unfolding parse_oma_content_def Let_def e0 e1 e2 e3 f0 f1 f2 f3 bind_e_simps
      e4 f4 e5 f5 e6 f6 e7 e8 e9 ..
  then show ?thesis using assms by simp
qed

theorem parse_ignores_trailing_bytes_witness:
  "parse_oma_content minimal_oma = Inr minimal_record
   \<and> parse_oma_content (minimal_oma @ [0xDE, 0xAD]) = Inr minimal_record"
  using parse_ignores_trailing_bytes [OF parse_minimal, of "[0xDE, 0xAD]"] parse_minimal
  by simp

section \<open>Truncated buffers\<close>

lemma cons_cp_Inl: "cons_cp c r = Inl e \<Longrightarrow> r = Inl e"
  by (cases r) (simp_all add: cons_cp_def bind_e_def)

lemma unpack_I_short: "length x \<noteq> 4 \<Longrightarrow> unpack_I x = Inl StructError"
  by (simp add: unpack_I_def)

lemma unpack_I_full: "length x = 4 \<Longrightarrow> unpack_I x = Inr (le_int x)"
  by (simp add: unpack_I_def)

lemma length_slice: "length (slice xs a b) = min (b - a) (length xs - a)"
  by (simp add: slice_def)

lemma parse_Inr_fits:
  assumes "parse_oma_content b = Inr r"
  shows "\<not> declared_past_end b"
proof -
  from assms obtain ver num tlv ts dlv dev rs where
    f2: "unpack_I (slice b 8 12) = Inr num" and
    f3: "unpack_I (slice b 12 16) = Inr tlv" and
    f5: "unpack_I (slice b (16 + nat tlv) (16 + nat tlv + 4)) = Inr dlv" and
    f8: "length (slice b (16 + nat tlv + 4 + nat dlv + 16)
                   (16 + nat tlv + 4 + nat dlv + 16 + 16)) = 16" and
    f9: "unpack_Hs (nat num) (slice b (16 + nat tlv + 4 + nat dlv + 16 + 16)
        (16 + nat tlv + 4 + nat dlv + 16 + 16 + nat num * 2)) = Inr rs"
    by (rule parse_InrE)
  have v: "le_int (slice b 8 12) = num" "le_int (slice b 12 16) = tlv"
    using unpack_I_Inr[OF f2] unpack_I_Inr[OF f3] by simp_all
  have "dlv = le_int (slice b (16 + nat tlv) (16 + nat tlv + 4))"
    using unpack_I_Inr[OF f5] by simp
  then have v3: "le_int (slice b (16 + nat tlv) (20 + nat tlv)) = dlv"
    by (simp add: add.commute add.left_commute)
  have b2: "16 + nat tlv + 4 \<le> length b"
    using slice_len_bound[of b "16 + nat tlv" "16 + nat tlv + 4" 4] unpack_I_Inr[OF f5] by simp
  have b3: "16 + nat tlv + 4 + nat dlv + 16 + 16 \<le> length b"
    using slice_len_bound[OF f8] by simp
  have b4: "16 + nat tlv + 4 + nat dlv + 16 + 16 + nat num * 2 \<le> length b"
  proof (cases "nat num = 0")
    case True
    then show ?thesis using b3 by simp
  next
    case False
    from f9 have "length (slice b (16 + nat tlv + 4 + nat dlv + 16 + 16)
        (16 + nat tlv + 4 + nat dlv + 16 + 16 + nat num * 2)) = 2 * nat num"
      by (auto simp: unpack_Hs_def split: if_splits)
    from slice_len_bound[OF this] False show ?thesis by simp
  qed
  show ?thesis
    unfolding declared_past_end_def Let_def v v3
    using b2 b3 b4 by simp
qed

lemma utf8_decode_error: "utf8_decode bs = Inl e \<Longrightarrow> e = UnicodeDecodeError"
proof (induction bs rule: utf8_decode.induct)
  case 1
  then show ?case by simp
next
  case (2 b0 bs)
  show ?case
  proof (cases "unat b0 < 0x80")
    case True
    with 2 show ?thesis by (auto simp: Let_def dest!: cons_cp_Inl)
  next
    case False
    note n1 = this
    show ?thesis
    proof (cases "0xC2 \<le> unat b0 \<and> unat b0 \<le> 0xDF")
      case True
      with 2 n1 show ?thesis
        by (auto simp: Let_def split: list.splits if_splits dest!: cons_cp_Inl)
    next
      case False
      note n2 = this
      show ?thesis
      proof (cases "0xE0 \<le> unat b0 \<and> unat b0 \<le> 0xEF")
        case True
        with 2 n1 n2 show ?thesis
          by (auto simp: Let_def split: list.splits if_splits dest!: cons_cp_Inl)
      next
        case False
        note n3 = this
        show ?thesis
        proof (cases "0xF0 \<le> unat b0 \<and> unat b0 \<le> 0xF4")
          case True
          with 2 n1 n2 n3 show ?thesis
            by (auto simp: Let_def split: list.splits if_splits dest!: cons_cp_Inl)
        next
          case False
          with 2 n1 n2 n3 show ?thesis by (auto simp: Let_def)
        qed
      qed
    qed
  qed
qed

lemma utf8_decode_cases:
  obtains "utf8_decode bs = Inl UnicodeDecodeError" | s where "utf8_decode bs = Inr s"
  using utf8_decode_error[of bs] by (cases "utf8_decode bs") auto

lemma unpack_Hs_error: "unpack_Hs n x = Inl e \<Longrightarrow> e = StructError"
  by (auto simp: unpack_Hs_def split: if_splits)

lemmas parse_steps = parse_oma_content_def Let_def length_magic unpack_I_full unpack_I_short
    bind_e_simps

lemma parse_tail:
  fixes content :: "byte list"
  defines "tsl \<equiv> nat (le_int (slice content 12 16))"
  defines "dvl \<equiv> nat (le_int (slice content (16 + tsl) (16 + tsl + 4)))"
  defines "nr \<equiv> nat (le_int (slice content 8 12))"
  assumes l1: "length (slice content 4 8) = 4"
    and l2: "length (slice content 8 12) = 4"
    and m: "slice content 0 4 = magic_OMAF"
    and l3: "length (slice content 12 16) = 4"
    and ts: "utf8_decode (slice content 16 (16 + tsl)) = Inr ts"
    and l5: "length (slice content (16 + tsl) (16 + tsl + 4)) = 4"
    and dev: "utf8_decode (slice content (16 + tsl + 4) (16 + tsl + 4 + dvl)) = Inr dev"
  shows "parse_oma_content content = Inl StructError
         \<or> (\<exists>r. parse_oma_content content = Inr r)"
proof -
  let ?fr = "slice content (16 + tsl + 4 + dvl) (16 + tsl + 4 + dvl + 16)"
  let ?ap = "slice content (16 + tsl + 4 + dvl + 16) (16 + tsl + 4 + dvl + 16 + 16)"
  let ?rd = "slice content (16 + tsl + 4 + dvl + 16 + 16) (16 + tsl + 4 + dvl + 16 + 16 + nr * 2)"
  note u1 = unpack_I_full[OF l1] and u2 = unpack_I_full[OF l2] and u3 = unpack_I_full[OF l3]
    and u5 = unpack_I_full[OF l5]
  note head = parse_oma_content_def Let_def m length_magic u1 u2 u3 bind_e_simps
    tsl_def[symmetric] ts u5 dvl_def[symmetric] dev nr_def[symmetric]
    simp_thms if_True if_False
  show ?thesis
  proof (cases "length ?fr = 16")
    case False
    have "parse_oma_content content = Inl StructError"
      by (simp only: head False)
    then show ?thesis ..
  next
    case fr: True
    show ?thesis
    proof (cases "length ?ap = 16")
      case False
      have "parse_oma_content content = Inl StructError"
        by (simp only: head fr False)
      then show ?thesis ..
    next
      case ap: True
      show ?thesis
      proof (cases "unpack_Hs nr ?rd")
        case (Inl e)
        then have u: "unpack_Hs nr ?rd = Inl StructError"
          using unpack_Hs_error[OF Inl] by simp
        have "parse_oma_content content = Inl StructError"
          by (simp only: head fr ap u)
        then show ?thesis ..
      next
        case (Inr rs)
        have "\<exists>r. parse_oma_content content = Inr r"
          by (simp only: head fr ap Inr) (rule exI, rule refl)
        then show ?thesis ..
      qed
    qed
  qed
qed

text \<open>
  C2, as amended.  A buffer in which a length field it holds declares a section that
  reaches past the end is never decoded to a record, whole or partial:
  \<open>_parse_oma_content\<close> raises, and the exception is determined.  It is the
  \<open>ValueError\<close> of the magic check when the marker is wrong; otherwise \<open>struct.error\<close>
  when the buffer ends before the timestamp length; otherwise \<open>UnicodeDecodeError\<close> when
  the bytes of the timestamp slice, cut or not, are not valid UTF-8; otherwise
  \<open>struct.error\<close> when the buffer ends before the device-info length; otherwise
  \<open>UnicodeDecodeError\<close> when the device slice is not valid UTF-8; otherwise
  \<open>struct.error\<close>, from the \<open>struct.unpack\<close> of the frame fields or of the radii.
  There is no truncation error of its own.  Slices are clamped to the buffer, so
  nothing is read out of range.
\<close>

theorem truncated_buffer_rejected:
  assumes "declared_past_end content"
  shows "parse_oma_content content =
     (let timestamp_len = nat (le_int (slice content 12 16));
          device_len =
            nat (le_int (slice content (16 + timestamp_len) (20 + timestamp_len)))
      in if take 4 content \<noteq> magic_OMAF then Inl ValueError
         else if length content < 16 then Inl StructError
         else if utf8_decode (slice content 16 (16 + timestamp_len)) = Inl UnicodeDecodeError
           then Inl UnicodeDecodeError
         else if length content < 20 + timestamp_len then Inl StructError
         else if utf8_decode (slice content (20 + timestamp_len)
                                (20 + timestamp_len + device_len)) = Inl UnicodeDecodeError
           then Inl UnicodeDecodeError
         else Inl StructError)"
proof -
  define tsl where "tsl = nat (le_int (slice content 12 16))"
  define dvl where "dvl = nat (le_int (slice content (16 + tsl) (16 + tsl + 4)))"
  have dvl': "nat (le_int (slice content (16 + tsl) (20 + tsl))) = dvl"
    by (simp add: dvl_def add.commute add.left_commute)
  have n12: "12 \<le> length content"
    using assms by (auto simp: declared_past_end_def Let_def split: if_splits)
  have s0: "slice content 0 4 = take 4 content" by (simp add: slice_def)
  have l0: "length (slice content 0 4) = 4" "length (slice content 4 8) = 4"
    "length (slice content 8 12) = 4"
    using n12 by (simp_all add: length_slice)
  have goal: "?thesis \<longleftrightarrow> parse_oma_content content =
      (if take 4 content \<noteq> magic_OMAF then Inl ValueError
         else if length content < 16 then Inl StructError
         else if utf8_decode (slice content 16 (16 + tsl)) = Inl UnicodeDecodeError
           then Inl UnicodeDecodeError
         else if length content < 20 + tsl then Inl StructError
         else if utf8_decode (slice content (20 + tsl) (20 + tsl + dvl)) = Inl UnicodeDecodeError
           then Inl UnicodeDecodeError
         else Inl StructError)"
    unfolding Let_def tsl_def[symmetric] dvl' ..
  show ?thesis
  proof (cases "take 4 content \<noteq> magic_OMAF")
    case True
    then have "parse_oma_content content = Inl ValueError"
      using l0 by (simp add: parse_oma_content_def Let_def s0)
    then show ?thesis unfolding goal using True by simp
  next
    case False
    then have m: "slice content 0 4 = magic_OMAF" by (simp add: s0)
    show ?thesis
    proof (cases "length content < 16")
      case True
      then have "length (slice content 12 16) \<noteq> 4" by (simp add: length_slice)
      then have "parse_oma_content content = Inl StructError"
        using l0 m by (simp add: parse_steps)
      then show ?thesis unfolding goal using False True by simp
    next
      case n16: False
      then have l3: "length (slice content 12 16) = 4" by (simp add: length_slice)
      consider (1) "utf8_decode (slice content 16 (16 + tsl)) = Inl UnicodeDecodeError"
        | (2) ts where "utf8_decode (slice content 16 (16 + tsl)) = Inr ts"
        by (rule utf8_decode_cases)
      then show ?thesis
      proof cases
        case 1
        then have "parse_oma_content content = Inl UnicodeDecodeError"
          using l0 m l3 unfolding tsl_def by (simp add: parse_steps)
        then show ?thesis unfolding goal using False n16 1 by simp
      next
        case (2 ts)
        note ts = this
        show ?thesis
        proof (cases "length content < 20 + tsl")
          case True
          then have "length (slice content (16 + tsl) (16 + tsl + 4)) \<noteq> 4"
            by (simp add: length_slice)
          then have "parse_oma_content content = Inl StructError"
            using l0 m l3 ts unfolding tsl_def by (simp add: parse_steps)
          then show ?thesis unfolding goal using False n16 True ts by simp
        next
          case n20: False
          then have l5: "length (slice content (16 + tsl) (16 + tsl + 4)) = 4"
            by (simp add: length_slice)
          consider (1) "utf8_decode (slice content (16 + tsl + 4) (16 + tsl + 4 + dvl))
                          = Inl UnicodeDecodeError"
            | (2) dev where "utf8_decode (slice content (16 + tsl + 4) (16 + tsl + 4 + dvl))
                          = Inr dev"
            by (rule utf8_decode_cases)
          then show ?thesis
          proof cases
            case 1
            then have "parse_oma_content content = Inl UnicodeDecodeError"
              using l0 m l3 ts l5 unfolding tsl_def dvl_def by (simp add: parse_steps)
            moreover have "utf8_decode (slice content (20 + tsl) (20 + tsl + dvl))
                             = Inl UnicodeDecodeError"
              using 1 by (simp add: add.commute add.left_commute)
            ultimately show ?thesis unfolding goal using False n16 n20 ts by simp
          next
            case (2 dev)
            have "parse_oma_content content = Inl StructError
                  \<or> (\<exists>r. parse_oma_content content = Inr r)"
              using l0(2,3) m l3 ts l5 2 unfolding tsl_def dvl_def by (rule parse_tail)
            then have "parse_oma_content content = Inl StructError"
              using parse_Inr_fits assms by blast
            moreover have "utf8_decode (slice content (20 + tsl) (20 + tsl + dvl)) = Inr dev"
              using 2 by (simp add: add.commute add.left_commute)
            ultimately show ?thesis unfolding goal using False n16 n20 ts by simp
          qed
        qed
      qed
    qed
  qed
qed

theorem truncated_buffer_rejected_witness:
  "declared_past_end header_only \<and> parse_oma_content header_only = Inl StructError
   \<and> declared_past_end cut_after_digit \<and> parse_oma_content cut_after_digit = Inl StructError"
  using truncated_buffer_rejected [of header_only] truncated_buffer_rejected [of cut_after_digit]
  by (simp add: declared_past_end_def header_only_def cut_after_digit_def slice_def
        magic_OMAF_def Let_def cons_cp_def bind_e_simps)

text \<open>
  C2, as stated, fails: the buffer cut inside its timestamp, one byte \<open>FF\<close> left of the
  five declared, is rejected with \<open>UnicodeDecodeError\<close>, which says nothing of a
  truncation.
\<close>

theorem truncated_buffer_unicode_error:
  "declared_past_end cut_in_timestamp
   \<and> parse_oma_content cut_in_timestamp = Inl UnicodeDecodeError"
  by (simp add: declared_past_end_def cut_in_timestamp_def parse_oma_content_def slice_def
        magic_OMAF_def unpack_I_def bind_e_simps Let_def)

section \<open>Properties of the frame processor\<close>

subsection \<open>The centroid\<close>

text \<open>
  C8.  \<open>_extract_measurements\<close> never raises \<open>ZeroDivisionError\<close>: it always returns a
  measurement.  With no contour kept there is no center; otherwise the center is missing
  exactly when \<open>m00\<close> of the largest contour is zero, and is
  \<open>(int(m10 / m00), int(m01 / m00))\<close> when it is not.
\<close>

theorem extract_measurements_center:
  "\<exists>ms. extract_measurements fr st = Inr ms \<and>
     center ms =
       (case scan_contours st of
          [] \<Rightarrow> None
        | c # cs \<Rightarrow>
            (let main_contour = max_by contourArea c cs in
             if m00 main_contour = 0 then None
             else Some (py_int (m10 main_contour / m00 main_contour),
                        py_int (m01 main_contour / m00 main_contour))))"
  by (simp add: extract_measurements_def Let_def bind_e_def py_truediv_def no_measurements_def
           split: prod.splits list.splits)

theorem extract_measurements_center_witness:
  "(\<exists>ms. extract_measurements blank_frame (init_processor\<lparr>scan_contours := [flat_contour]\<rparr>)
          = Inr ms
      \<and> center ms = None)
   \<and> (\<exists>ms. extract_measurements blank_frame (init_processor\<lparr>scan_contours := [sample_contour]\<rparr>)
          = Inr ms
      \<and> center ms = Some (776, 25))"
  using extract_measurements_center
          [of blank_frame "init_processor\<lparr>scan_contours := [flat_contour]\<rparr>"]
        extract_measurements_center
          [of blank_frame "init_processor\<lparr>scan_contours := [sample_contour]\<rparr>"]
  by (simp add: flat_contour_def sample_contour_def py_int_def)

subsection \<open>The radial profile\<close>

lemma py_int_clamp:
  "1500 \<le> py_int (max 1500 (min 2700 x)) \<and> py_int (max 1500 (min 2700 x)) \<le> 2700"
  by (simp add: py_int_def le_floor_iff floor_le_iff) linarith

lemma center_not_empty: "center ms \<noteq> None \<Longrightarrow> ms \<noteq> no_measurements"
  by (auto simp: no_measurements_def)

lemma py_int_nonneg: "0 \<le> x \<Longrightarrow> py_int x = \<lfloor>x\<rfloor>"
  by (simp add: py_int_def)

lemma radius_formula_theta:
  "radius_formula i =
     1550 + 100 * sin (2 * (2 * pi * real i / 1000)) + 50 * cos (3 * (2 * pi * real i / 1000))"
  by (simp add: radius_formula_def Let_def algebra_simps)

text \<open>
  C4.  For a measurement with a center the profile has exactly 1000 elements, each in
  \<open>[1500, 2700]\<close>.  The bounds come from the clamp and the truncation alone, so they hold
  for \<open>radii_from raw\<close> whatever value \<open>raw\<close> the floating-point arithmetic yields, and
  for the exact formula in particular.
\<close>

theorem radii_bounds:
  assumes "center ms \<noteq> None"
  shows "length (generate_radii_data ms) = 1000
     \<and> (\<forall>r \<in> set (generate_radii_data ms). 1500 \<le> r \<and> r \<le> 2700)
     \<and> length (radii_from raw ms) = 1000
     \<and> (\<forall>r \<in> set (radii_from raw ms). 1500 \<le> r \<and> r \<le> 2700)"
  using assms center_not_empty[OF assms] py_int_clamp
  by (auto simp: radii_from_def generate_radii_data_def)

theorem radii_bounds_witness:
  "center sample_measurements \<noteq> None
   \<and> length (generate_radii_data sample_measurements) = 1000
   \<and> 1500 \<le> generate_radii_data sample_measurements ! 0
   \<and> generate_radii_data sample_measurements ! 0 \<le> 2700"
proof -
  have c: "center sample_measurements \<noteq> None"
    by (simp add: sample_measurements_def)
  note b = radii_bounds [OF c, of "\<lambda>i. 0"]
  from b have "generate_radii_data sample_measurements ! 0
                 \<in> set (generate_radii_data sample_measurements)"
    by (intro nth_mem) simp
  with b c show ?thesis by blast
qed

text \<open>
  C5, as amended.  For a measurement with a center there are exactly 1000 samples, and
  sample \<open>i\<close> is the clamped formula at the angle \<open>2\<pi>i/1000\<close> truncated to an integer
  (\<open>int(radius)\<close>; the value is positive, so this is the floor), not rounded to the
  nearest one.
\<close>

theorem radii_truncated:
  assumes "center ms \<noteq> None" and "i < 1000"
  shows "length (generate_radii_data ms) = 1000
     \<and> generate_radii_data ms ! i =
         \<lfloor>max 1500 (min 2700 (1550 + 100 * sin (2 * (2 * pi * real i / 1000))
                                     + 50 * cos (3 * (2 * pi * real i / 1000))))\<rfloor>"
proof -
  have "0 \<le> max 1500 (min 2700 (radius_formula i))" by simp
  then show ?thesis
    using assms center_not_empty[OF assms(1)]
    by (simp add: generate_radii_data_def radii_from_def py_int_nonneg radius_formula_theta)
qed

theorem radii_truncated_witness:
  "center sample_measurements \<noteq> None \<and> (0::nat) < 1000
   \<and> length (generate_radii_data sample_measurements) = 1000
   \<and> generate_radii_data sample_measurements ! 0 = 1600"
  using radii_truncated [of sample_measurements 0]
  by (simp add: sample_measurements_def)

lemma cos_135: "cos (3 * pi / 4) = - (sqrt 2 / 2)"
proof -
  have "cos (pi - pi / 4) = - cos (pi / 4)" by (rule cos_pi_minus)
  moreover have "pi - pi / 4 = 3 * pi / 4" by simp
  ultimately have "cos (3 * pi / 4) = - cos (pi / 4)" by simp
  then show ?thesis unfolding cos_45 .
qed

lemma sqrt2_bounds: "1.41 < sqrt 2" "sqrt 2 < 1.42"
proof -
  show "1.41 < sqrt 2" by (rule real_less_rsqrt) (simp add: power2_eq_square)
  show "sqrt 2 < 1.42" by (rule real_less_lsqrt) (simp_all add: power2_eq_square)
qed

lemma radius_formula_125: "radius_formula 125 = 1650 - 25 * sqrt 2"
proof -
  have a: "real 125 / 1000 * 2 * pi * 2 = pi / 2" by simp
  have b: "real 125 / 1000 * 2 * pi * 3 = 3 * pi / 4" by simp
  have "radius_formula 125 = 1550 + (100 * sin (pi / 2) + 50 * cos (3 * pi / 4))"
    unfolding radius_formula_def Let_def a b ..
  also have "\<dots> = 1650 - 25 * sqrt 2"
    unfolding cos_135 sin_pi_half by simp
  finally show ?thesis .
qed

text \<open>
  C5, as stated, fails at \<open>i = 125\<close>: the angle is \<open>\<pi>/4\<close>, the formula gives
  \<open>1650 - 25\<surd>2 = 1614.64\<dots>\<close>, the code stores \<open>1614\<close> and rounding to the nearest
  integer would give \<open>1615\<close>.
\<close>

theorem truncation_not_rounding:
  "generate_radii_data sample_measurements ! 125 = 1614 \<and> spec_sample 125 = 1615"
proof -
  have v: "max 1500 (min 2700 (radius_formula 125)) = 1650 - 25 * sqrt 2"
    unfolding radius_formula_125 using sqrt2_bounds by simp
  have fl: "py_int (1650 - 25 * sqrt 2) = 1614"
    using sqrt2_bounds by (simp add: py_int_def floor_eq_iff)
  have rd: "round (1650 - 25 * sqrt 2) = 1615"
    using sqrt2_bounds by (simp add: round_def floor_eq_iff)
  have g: "generate_radii_data sample_measurements ! 125
             = py_int (max 1500 (min 2700 (radius_formula 125)))"
    by (simp add: generate_radii_data_def radii_from_def sample_measurements_def
          no_measurements_def)
  have s: "spec_sample 125 = round (max 1500 (min 2700 (radius_formula 125)))"
    unfolding spec_sample_def radius_formula_theta Let_def ..
  show ?thesis unfolding g s v fl rd by simp
qed

subsection \<open>No contour accepted\<close>

text \<open>
  C6, as amended.  When no contour of the frame passes the acceptance filter and OpenCV
  accepts the frame (a non-empty 8-bit image of 3 or 4 channels), \<open>extract_scan_data\<close>
  returns \<open>None\<close>, no record and so no measurement and no profile, as a normal result,
  and leaves the processor as it was.  When OpenCV does not accept the frame, its
  \<open>cv2.error\<close> leaves \<open>extract_scan_data\<close>, the processor again unchanged.  On a
  processor that holds no contour of an earlier frame, the measurement stage then gives
  the empty measurement, and the synthesizer gives the empty profile for it.
\<close>

theorem no_contour_no_record:
  assumes "detect_frame_contours (findContours f) = []"
  shows "extract_scan_data (Some f) now st =
           (if cvtColor_accepts f \<and> adaptiveThreshold_accepts f then Inr None
            else Inl CvError, st)
     \<and> process_frame (Some f) st =
           (if cvtColor_accepts f \<and> adaptiveThreshold_accepts f then Inr False
            else Inl CvError, st)
     \<and> (scan_contours st = [] \<longrightarrow>
          extract_measurements f st = Inr no_measurements
          \<and> generate_radii_data no_measurements = [])"
  using assms
  by (simp add: extract_scan_data_def process_frame_def extract_measurements_def
        generate_radii_data_def radii_from_def Let_def)

theorem no_contour_no_record_witness:
  "detect_frame_contours (findContours blank_frame) = []
   \<and> cvtColor_accepts blank_frame \<and> adaptiveThreshold_accepts blank_frame
   \<and> extract_scan_data (Some blank_frame) (ascii ''2025-01-01T00:00:00'') init_processor
       = (Inr None, init_processor)
   \<and> extract_measurements blank_frame init_processor = Inr no_measurements
   \<and> generate_radii_data no_measurements = []"
  using no_contour_no_record [of blank_frame "ascii ''2025-01-01T00:00:00''" init_processor]
  by (simp add: blank_frame_def flat_contour_def detect_frame_contours_def
        cvtColor_accepts_def adaptiveThreshold_accepts_def init_processor_def)

text \<open>
  C6, as stated, fails for a single-channel frame: no contour passes the filter, none
  being found, and \<open>cv2.cvtColor\<close> raises \<open>cv2.error\<close>, which nothing catches.
\<close>

theorem single_channel_frame_raises:
  "detect_frame_contours (findContours gray_frame) = []
   \<and> extract_scan_data (Some gray_frame) (ascii ''2025-01-01T00:00:00'') init_processor
       = (Inl CvError, init_processor)"
  by (simp add: gray_frame_def detect_frame_contours_def extract_scan_data_def
        process_frame_def cvtColor_accepts_def)

subsection \<open>State kept between calls\<close>




end
